theory Spec2Isabelle
  imports Main
begin

section \<open>Python values\<close>

text \<open>
  The task manager of \<^verbatim>\<open>src/task_manager.py\<close> is dynamically typed: a task that was
  read back from the JSON file holds whatever values the file held. The values that can
  occur are the ones \<^verbatim>\<open>json.load\<close> produces: \<^verbatim>\<open>None\<close>, booleans, integers, strings,
  lists and dictionaries with string keys. Floating-point numbers are left out of the
  model. A dictionary is an association list in insertion order with distinct keys.
  A string is a list of characters; a character stands for one code point below 256.
\<close>

datatype pyval =
    PNone
  | PBool bool
  | PInt int
  | PStr string
  | PList "pyval list"
  | PDict "(string \<times> pyval) list"

text \<open>The exception classes that the modelled code can raise.\<close>

datatype py_error =
  ValueError | AttributeError | TypeError | KeyError | OverflowError | JSONDecodeError

text \<open>
  \<^verbatim>\<open>except C\<close> catches the instances of \<^verbatim>\<open>C\<close> and of its subclasses;
  \<^verbatim>\<open>json.JSONDecodeError\<close> is a subclass of \<^verbatim>\<open>ValueError\<close>.
\<close>

fun instance_of :: "py_error \<Rightarrow> py_error \<Rightarrow> bool" where
  "instance_of JSONDecodeError ValueError = True"
| "instance_of e c = (e = c)"

text \<open>Python's truth value of an object, as tested by \<^verbatim>\<open>if x\<close> and \<^verbatim>\<open>not x\<close>.\<close>

fun truthy :: "pyval \<Rightarrow> bool" where
  "truthy PNone = False"
| "truthy (PBool b) = b"
| "truthy (PInt i) = (i \<noteq> 0)"
| "truthy (PStr s) = (s \<noteq> [])"
| "truthy (PList xs) = (xs \<noteq> [])"
| "truthy (PDict kvs) = (kvs \<noteq> [])"

text \<open>
  \<^verbatim>\<open>x == i\<close> for an integer \<^verbatim>\<open>i\<close> and \<^verbatim>\<open>x == s\<close> for a string \<^verbatim>\<open>s\<close>. In Python
  \<^verbatim>\<open>True == 1\<close> and \<^verbatim>\<open>False == 0\<close> hold; a string equals only an equal string.
\<close>

fun eq_int :: "pyval \<Rightarrow> int \<Rightarrow> bool" where
  "eq_int (PInt j) i = (j = i)"
| "eq_int (PBool b) i = ((if b then 1 else 0) = i)"
| "eq_int _ i = False"

fun eq_str :: "pyval \<Rightarrow> string \<Rightarrow> bool" where
  "eq_str (PStr t) s = (t = s)"
| "eq_str _ s = False"

text \<open>
  \<^verbatim>\<open>str.strip()\<close> removes leading and trailing whitespace. On code points below 256,
  \<^verbatim>\<open>str.isspace\<close> holds for 9 to 13, 28 to 32, 133 and 160.
\<close>

definition isspace :: "char \<Rightarrow> bool" where
  "isspace c = ((of_char c :: nat) \<in> {9, 10, 11, 12, 13, 28, 29, 30, 31, 32, 133, 160})"

definition strip :: "string \<Rightarrow> string" where
  "strip s = rev (dropWhile isspace (rev (dropWhile isspace s)))"

text \<open>\<^verbatim>\<open>data[k]\<close> with a string key: only a dictionary can be subscripted by a string.\<close>

fun subscript :: "pyval \<Rightarrow> string \<Rightarrow> py_error + pyval" where
  "subscript (PDict kvs) k = (case map_of kvs k of None \<Rightarrow> Inl KeyError | Some v \<Rightarrow> Inr v)"
| "subscript _ k = Inl TypeError"

text \<open>\<^verbatim>\<open>data.get(k, default)\<close> on a dictionary.\<close>

definition dict_get :: "(string \<times> pyval) list \<Rightarrow> string \<Rightarrow> pyval \<Rightarrow> pyval" where
  "dict_get kvs k dflt = (case map_of kvs k of None \<Rightarrow> dflt | Some v \<Rightarrow> v)"

text \<open>The elements a \<^verbatim>\<open>for\<close> loop or a comprehension draws from a value.\<close>

fun iterate :: "pyval \<Rightarrow> py_error + pyval list" where
  "iterate (PList xs) = Inr xs"
| "iterate (PDict kvs) = Inr (map (\<lambda>kv. PStr (fst kv)) kvs)"
| "iterate (PStr s) = Inr (map (\<lambda>c. PStr [c]) s)"
| "iterate _ = Inl TypeError"

text \<open>\<^verbatim>\<open>x += 1\<close>: defined on integers and booleans, a \<^verbatim>\<open>TypeError\<close> otherwise.\<close>

fun add_one :: "pyval \<Rightarrow> py_error + pyval" where
  "add_one (PInt i) = Inr (PInt (i + 1))"
| "add_one (PBool b) = Inr (PInt ((if b then 1 else 0) + 1))"
| "add_one _ = Inl TypeError"

section \<open>Priorities and statuses\<close>

definition LOW :: string where "LOW = ''low''"
definition MEDIUM :: string where "MEDIUM = ''medium''"
definition HIGH :: string where "HIGH = ''high''"
definition CRITICAL :: string where "CRITICAL = ''critical''"

definition TODO :: string where "TODO = ''todo''"
definition IN_PROGRESS :: string where "IN_PROGRESS = ''in_progress''"
definition COMPLETED :: string where "COMPLETED = ''completed''"
definition CANCELLED :: string where "CANCELLED = ''cancelled''"

section \<open>Task\<close>

text \<open>
  The attributes of a \<^verbatim>\<open>Task\<close> object. \<^verbatim>\<open>title\<close> and \<^verbatim>\<open>description\<close> are results
  of \<^verbatim>\<open>str.strip\<close> and so always strings; the other attributes are stored as given.
\<close>

record task =
  title :: string
  description :: string
  priority :: pyval
  status :: pyval
  due_date :: pyval
  task_id :: pyval
  created_at :: pyval
  updated_at :: pyval

text \<open>
  \<^verbatim>\<open>Task.__init__\<close>. The first argument is the reading of the clock,
  \<^verbatim>\<open>datetime.now().isoformat()\<close>. A title that is falsy or blank after stripping
  raises \<^verbatim>\<open>ValueError\<close>; calling \<^verbatim>\<open>.strip()\<close> on a value that is not a string raises
  \<^verbatim>\<open>AttributeError\<close>.
\<close>

definition Task_init ::
  "string \<Rightarrow> pyval \<Rightarrow> pyval \<Rightarrow> pyval \<Rightarrow> pyval \<Rightarrow> pyval \<Rightarrow> pyval \<Rightarrow> py_error + task" where
  "Task_init now ti de pr st du tid =
     (if \<not> truthy ti then Inl ValueError
      else case ti of
        PStr s \<Rightarrow>
          (if strip s = [] then Inl ValueError
           else case de of
             PStr d \<Rightarrow>
               Inr \<lparr>title = strip s, description = strip d, priority = pr, status = st,
                    due_date = du, task_id = tid, created_at = PStr now,
                    updated_at = PStr now\<rparr>
           | _ \<Rightarrow> Inl AttributeError)
      | _ \<Rightarrow> Inl AttributeError)"

text \<open>\<^verbatim>\<open>Task.to_dict\<close>.\<close>

definition to_dict :: "task \<Rightarrow> pyval" where
  "to_dict t =
     PDict [(''task_id'', task_id t),
            (''title'', PStr (title t)),
            (''description'', PStr (description t)),
            (''priority'', priority t),
            (''status'', status t),
            (''due_date'', due_date t),
            (''created_at'', created_at t),
            (''updated_at'', updated_at t)]"

text \<open>
  \<^verbatim>\<open>Task.from_dict\<close>. \<^verbatim>\<open>data["title"]\<close> raises \<^verbatim>\<open>KeyError\<close> when the key is missing
  and \<^verbatim>\<open>TypeError\<close> when \<^verbatim>\<open>data\<close> is not a dictionary; the constructor runs with the
  defaults of \<^verbatim>\<open>dict.get\<close>, and the two timestamps are overwritten afterwards.
\<close>

fun from_dict :: "string \<Rightarrow> pyval \<Rightarrow> py_error + task" where
  "from_dict now (PDict d) =
     (case subscript (PDict d) ''title'' of
        Inl e \<Rightarrow> Inl e
      | Inr ti \<Rightarrow>
         (case Task_init now ti
                 (dict_get d ''description'' (PStr ''''))
                 (dict_get d ''priority'' (PStr MEDIUM))
                 (dict_get d ''status'' (PStr TODO))
                 (dict_get d ''due_date'' PNone)
                 (dict_get d ''task_id'' PNone) of
            Inl e \<Rightarrow> Inl e
          | Inr t \<Rightarrow>
              Inr (t\<lparr>created_at := dict_get d ''created_at'' (created_at t),
                     updated_at := dict_get d ''updated_at'' (updated_at t)\<rparr>)))"
| "from_dict now v = Inl TypeError"

text \<open>
  Date and time values. \<^verbatim>\<open>datetime.now()\<close> is a naive value; the parser of
  \<^verbatim>\<open>dateutil\<close> returns a naive value or, when the text names a zone, an aware one.
  The integer counts microseconds on the value's own time line. Ordering a naive value
  against an aware one raises \<^verbatim>\<open>TypeError\<close>.
\<close>

datatype datetime = Naive int | Aware int

fun dt_less :: "datetime \<Rightarrow> datetime \<Rightarrow> py_error + bool" where
  "dt_less (Naive a) (Naive b) = Inr (a < b)"
| "dt_less (Aware a) (Aware b) = Inr (a < b)"
| "dt_less a b = Inl TypeError"

text \<open>
  The \<^verbatim>\<open>try\<close> block of \<^verbatim>\<open>Task.is_overdue\<close>. The parser \<^verbatim>\<open>date_parser.parse\<close> is
  a library function and a parameter here: it returns a date or raises; it is documented
  to raise \<^verbatim>\<open>ParserError\<close> (a \<^verbatim>\<open>ValueError\<close>) on text it cannot read, \<^verbatim>\<open>TypeError\<close>
  on an argument that is not text, and \<^verbatim>\<open>OverflowError\<close>. The second parameter is the
  reading of the clock.
\<close>

definition overdue_try :: "(string \<Rightarrow> py_error + datetime) \<Rightarrow> int \<Rightarrow> task \<Rightarrow> py_error + bool" where
  "overdue_try parse now t =
     (case (case due_date t of PStr s \<Rightarrow> parse s | _ \<Rightarrow> Inl TypeError) of
        Inl e \<Rightarrow> Inl e
      | Inr due \<Rightarrow>
         (case dt_less due (Naive now) of
            Inl e \<Rightarrow> Inl e
          | Inr b \<Rightarrow> Inr (b \<and> \<not> eq_str (status t) COMPLETED)))"

text \<open>\<^verbatim>\<open>Task.is_overdue\<close>: the guard on \<^verbatim>\<open>due_date\<close>, then the \<^verbatim>\<open>try\<close> block under
  \<^verbatim>\<open>except (ValueError, TypeError)\<close>; any other exception propagates.\<close>

definition is_overdue :: "(string \<Rightarrow> py_error + datetime) \<Rightarrow> int \<Rightarrow> task \<Rightarrow> py_error + bool" where
  "is_overdue parse now t =
     (if \<not> truthy (due_date t) then Inr False
      else case overdue_try parse now t of
        Inl e \<Rightarrow> (if instance_of e ValueError \<or> instance_of e TypeError then Inr False else Inl e)
      | Inr b \<Rightarrow> Inr b)"

section \<open>TaskManager\<close>

text \<open>
  The backing file. \<^verbatim>\<open>json.load\<close> either raises \<^verbatim>\<open>JSONDecodeError\<close> or returns the
  value the text denotes, and it reads the text written by \<^verbatim>\<open>json.dump\<close> back as the
  value that was dumped. The model keeps of a file only this: whether it exists, and if so
  whether its text is malformed or which value it denotes. Failures of the file system
  itself are not modelled.
\<close>

datatype file_content = Malformed | Wellformed pyval

record task_manager =
  tasks :: "task list"
  next_id :: pyval
  storage_file :: "file_content option"

text \<open>
  The comprehension \<^verbatim>\<open>[Task.from_dict(task_data) for task_data in ...]\<close>: the first
  exception ends it. Every construction reads the clock; \<^verbatim>\<open>clk k\<close> is the reading
  during the \<open>k\<close>-th construction.
\<close>

fun from_dicts :: "(nat \<Rightarrow> string) \<Rightarrow> nat \<Rightarrow> pyval list \<Rightarrow> py_error + task list" where
  "from_dicts clk k [] = Inr []"
| "from_dicts clk k (x # xs) =
     (case from_dict (clk k) x of
        Inl e \<Rightarrow> Inl e
      | Inr t \<Rightarrow>
         (case from_dicts clk (Suc k) xs of
            Inl e \<Rightarrow> Inl e
          | Inr ts \<Rightarrow> Inr (t # ts)))"

text \<open>
  \<^verbatim>\<open>TaskManager._load_tasks\<close>. Both \<^verbatim>\<open>except\<close> clauses log and re-raise, so every
  exception leaves the method; the attributes are assigned only when nothing was raised.
\<close>

definition load_tasks :: "(nat \<Rightarrow> string) \<Rightarrow> task_manager \<Rightarrow> py_error + task_manager" where
  "load_tasks clk m =
     (case storage_file m of
        None \<Rightarrow> Inr m
      | Some Malformed \<Rightarrow> Inl JSONDecodeError
      | Some (Wellformed data) \<Rightarrow>
         (case subscript data ''tasks'' of
            Inl e \<Rightarrow> Inl e
          | Inr tv \<Rightarrow>
             (case iterate tv of
                Inl e \<Rightarrow> Inl e
              | Inr xs \<Rightarrow>
                 (case from_dicts clk 0 xs of
                    Inl e \<Rightarrow> Inl e
                  | Inr ts \<Rightarrow>
                     (case data of
                        PDict d \<Rightarrow> Inr (m\<lparr>tasks := ts, next_id := dict_get d ''next_id'' (PInt 1)\<rparr>)
                      | _ \<Rightarrow> Inl AttributeError)))))"

text \<open>\<^verbatim>\<open>TaskManager.__init__\<close>: the argument is the file found at the storage path.\<close>

definition TaskManager_init :: "(nat \<Rightarrow> string) \<Rightarrow> file_content option \<Rightarrow> py_error + task_manager" where
  "TaskManager_init clk f = load_tasks clk \<lparr>tasks = [], next_id = PInt 1, storage_file = f\<rparr>"

text \<open>\<^verbatim>\<open>TaskManager._save_tasks\<close>: the whole file is replaced.\<close>

definition save_tasks :: "task_manager \<Rightarrow> task_manager" where
  "save_tasks m =
     m\<lparr>storage_file :=
         Some (Wellformed (PDict [(''tasks'', PList (map to_dict (tasks m))),
                                  (''next_id'', next_id m)]))\<rparr>"

text \<open>
  \<^verbatim>\<open>TaskManager.add_task\<close>, with the clock reading first. The result is what the call
  returns or raises, together with the manager afterwards. The constructor raises before
  anything is changed; \<^verbatim>\<open>self.next_id += 1\<close> comes after the append.
\<close>

definition add_task ::
  "string \<Rightarrow> string \<Rightarrow> string \<Rightarrow> string \<Rightarrow> string option \<Rightarrow> task_manager
     \<Rightarrow> (py_error + task) \<times> task_manager" where
  "add_task now ti de pr du m =
     (case Task_init now (PStr ti) (PStr de) (PStr pr) (PStr TODO)
             (case du of None \<Rightarrow> PNone | Some s \<Rightarrow> PStr s) (next_id m) of
        Inl e \<Rightarrow> (Inl e, m)
      | Inr t \<Rightarrow>
         (let m1 = m\<lparr>tasks := tasks m @ [t]\<rparr> in
          case add_one (next_id m1) of
            Inl e \<Rightarrow> (Inl e, m1)
          | Inr n \<Rightarrow> (Inr t, save_tasks (m1\<lparr>next_id := n\<rparr>))))"

text \<open>\<^verbatim>\<open>TaskManager.get_task\<close>: the first task whose identifier equals the argument.\<close>

fun get_task_in :: "task list \<Rightarrow> int \<Rightarrow> task option" where
  "get_task_in [] i = None"
| "get_task_in (t # ts) i = (if eq_int (task_id t) i then Some t else get_task_in ts i)"

definition get_task :: "task_manager \<Rightarrow> int \<Rightarrow> task option" where
  "get_task m i = get_task_in (tasks m) i"

text \<open>
  \<^verbatim>\<open>get_task\<close> returns the object that sits in the list, so the assignments
  of \<^verbatim>\<open>update_task\<close> change the list element at the first matching position, and
  \<^verbatim>\<open>self.tasks.remove(task)\<close> removes that element.
\<close>

fun assign_first :: "int \<Rightarrow> (task \<Rightarrow> task) \<Rightarrow> task list \<Rightarrow> task list" where
  "assign_first i f [] = []"
| "assign_first i f (t # ts) =
     (if eq_int (task_id t) i then f t # ts else t # assign_first i f ts)"

fun remove_first :: "int \<Rightarrow> task list \<Rightarrow> task list" where
  "remove_first i [] = []"
| "remove_first i (t # ts) = (if eq_int (task_id t) i then ts else t # remove_first i ts)"

text \<open>The assignments of \<^verbatim>\<open>update_task\<close> to the task it found, in the order of the code.\<close>

definition assign_fields ::
  "string \<Rightarrow> string option \<Rightarrow> string option \<Rightarrow> string option \<Rightarrow> string option
     \<Rightarrow> string option \<Rightarrow> task \<Rightarrow> task" where
  "assign_fields now ti de pr st du t =
     (let t1 = (case ti of None \<Rightarrow> t | Some s \<Rightarrow> t\<lparr>title := strip s\<rparr>);
          t2 = (case de of None \<Rightarrow> t1 | Some s \<Rightarrow> t1\<lparr>description := strip s\<rparr>);
          t3 = (case pr of None \<Rightarrow> t2 | Some s \<Rightarrow> t2\<lparr>priority := PStr s\<rparr>);
          t4 = (case st of None \<Rightarrow> t3 | Some s \<Rightarrow> t3\<lparr>status := PStr s\<rparr>);
          t5 = (case du of None \<Rightarrow> t4 | Some s \<Rightarrow> t4\<lparr>due_date := PStr s\<rparr>)
      in t5\<lparr>updated_at := PStr now\<rparr>)"

text \<open>\<^verbatim>\<open>TaskManager.update_task\<close>, with the clock reading first.\<close>

definition update_task ::
  "string \<Rightarrow> int \<Rightarrow> string option \<Rightarrow> string option \<Rightarrow> string option \<Rightarrow> string option
     \<Rightarrow> string option \<Rightarrow> task_manager \<Rightarrow> bool \<times> task_manager" where
  "update_task now i ti de pr st du m =
     (case get_task m i of
        None \<Rightarrow> (False, m)
      | Some _ \<Rightarrow>
          (True, save_tasks (m\<lparr>tasks := assign_first i (assign_fields now ti de pr st du) (tasks m)\<rparr>)))"

text \<open>\<^verbatim>\<open>TaskManager.delete_task\<close>.\<close>

definition delete_task :: "int \<Rightarrow> task_manager \<Rightarrow> bool \<times> task_manager" where
  "delete_task i m =
     (case get_task m i of
        None \<Rightarrow> (False, m)
      | Some _ \<Rightarrow> (True, save_tasks (m\<lparr>tasks := remove_first i (tasks m)\<rparr>)))"

text \<open>
  \<^verbatim>\<open>TaskManager.list_tasks\<close>. The filters are tested with \<^verbatim>\<open>if status:\<close> and
  \<^verbatim>\<open>if priority:\<close>, which \<^verbatim>\<open>None\<close> and the empty string both fail.
\<close>

definition list_tasks :: "string option \<Rightarrow> string option \<Rightarrow> task_manager \<Rightarrow> task list" where
  "list_tasks st pr m =
     (let filtered1 =
            (case st of
               Some s \<Rightarrow> if s \<noteq> [] then filter (\<lambda>t. eq_str (status t) s) (tasks m) else tasks m
             | None \<Rightarrow> tasks m);
          filtered2 =
            (case pr of
               Some p \<Rightarrow> if p \<noteq> [] then filter (\<lambda>t. eq_str (priority t) p) filtered1 else filtered1
             | None \<Rightarrow> filtered1)
      in filtered2)"

text \<open>A caller's sequence of calls on one manager, each with its clock reading.\<close>

datatype call =
    Add string string string string "string option"
  | Update string int "string option" "string option" "string option" "string option"
      "string option"
  | Delete int

fun exec :: "call \<Rightarrow> task_manager \<Rightarrow> task_manager" where
  "exec (Add now ti de pr du) m = snd (add_task now ti de pr du m)"
| "exec (Update now i ti de pr st du) m = snd (update_task now i ti de pr st du m)"
| "exec (Delete i) m = snd (delete_task i m)"

definition run :: "call list \<Rightarrow> task_manager \<Rightarrow> task_manager" where
  "run cs m = fold exec cs m"

text \<open>\<^verbatim>\<open>list(d.keys())\<close> of a dictionary.\<close>

fun keys :: "pyval \<Rightarrow> string list" where
  "keys (PDict kvs) = map fst kvs"
| "keys v = []"

section \<open>Sample environment\<close>

text \<open>
  A clock that stands still, and an excerpt of the date parser on six texts: a past date,
  the same date with the zone suffix \<^verbatim>\<open>Z\<close> (read as an aware date in UTC), a far
  future date, two texts that are no date (\<^verbatim>\<open>ParserError\<close>, a \<^verbatim>\<open>ValueError\<close>), and
  a run of digits whose year does not fit a C integer (\<^verbatim>\<open>OverflowError\<close>). The last
  branch only makes the function total: the excerpt says nothing about other texts, and
  no property below applies it to one.
\<close>

definition fixed_clock :: "string \<Rightarrow> nat \<Rightarrow> string" where
  "fixed_clock s k = s"

definition sample_parse :: "string \<Rightarrow> py_error + datetime" where
  "sample_parse s =
     (if s = ''2020-01-01'' then Inr (Naive 1577836800000000)
      else if s = ''2020-01-01T00:00:00Z'' then Inr (Aware 1577836800000000)
      else if s = ''2999-01-01'' then Inr (Naive 32472144000000000)
      else if s = ''not-a-date'' then Inl ValueError
      else if s = ''soon'' then Inl ValueError
      else if s = ''99999999999'' then Inl OverflowError
      else Inl ValueError)"

definition sample_task :: "pyval \<Rightarrow> string \<Rightarrow> task" where
  "sample_task du st =
     \<lparr>title = ''Pay rent'', description = [], priority = PStr ''high'', status = PStr st,
      due_date = du, task_id = PInt 1, created_at = PStr ''2019-12-01T09:00:00'',
      updated_at = PStr ''2019-12-01T09:00:00''\<rparr>"

definition sample_adds :: "call list" where
  "sample_adds =
     [Add ''2025-01-01T09:00:00'' ''Buy milk'' [] ''high'' None,
      Add ''2025-01-01T09:05:00'' '' Call dentist '' ''before noon'' ''medium'' None,
      Add ''2025-01-01T09:10:00'' ''File taxes'' [] ''low'' (Some ''2025-04-15'')]"

section \<open>Predicates used in the properties\<close>

text \<open>A call that adds a task under a title that is not blank.\<close>

fun good_add :: "call \<Rightarrow> bool" where
  "good_add (Add now ti de pr du) = (strip ti \<noteq> [])"
| "good_add c = False"

text \<open>
  The identifier counter is an integer and every task carries an integer identifier
  below it.
\<close>

fun below :: "pyval \<Rightarrow> pyval \<Rightarrow> bool" where
  "below (PInt k) (PInt n) = (k < n)"
| "below a b = False"

definition ids_below :: "task_manager \<Rightarrow> bool" where
  "ids_below m =
     ((case next_id m of PInt n \<Rightarrow> True | _ \<Rightarrow> False)
      \<and> list_all (\<lambda>t. below (task_id t) (next_id m)) (tasks m))"

text \<open>Title and description are in stripped form.\<close>

definition trimmed :: "task \<Rightarrow> bool" where
  "trimmed t = (strip (title t) = title t \<and> strip (description t) = description t)"

section \<open>Properties of the string and list helpers\<close>

lemma strip_Nil [simp]: "strip [] = []"
  by (simp add: strip_def)

lemma dropWhile_fixed: "xs = [] \<or> \<not> P (hd xs) \<Longrightarrow> dropWhile P xs = xs"
  by (cases xs) auto

lemma strip_no_leading: "strip s = [] \<or> \<not> isspace (hd (strip s))"
proof (cases "strip s = []")
  case True
  then show ?thesis by simp
next
  case False
  define a where "a = dropWhile isspace s"
  define b where "b = dropWhile isspace (rev a)"
  have sb: "strip s = rev b" by (simp add: strip_def a_def b_def)
  have "rev a = takeWhile isspace (rev a) @ b" by (simp add: b_def)
  then have "a = rev b @ rev (takeWhile isspace (rev a))"
    by (metis rev_append rev_rev_ident)
  moreover have "rev b \<noteq> []" using False sb by simp
  ultimately have "hd (rev b) = hd a" by (metis hd_append2)
  moreover have "a \<noteq> []" using \<open>a = rev b @ _\<close> \<open>rev b \<noteq> []\<close> by auto
  then have "\<not> isspace (hd a)" unfolding a_def by (rule hd_dropWhile)
  ultimately show ?thesis using sb by simp
qed

lemma strip_no_trailing: "rev (strip s) = [] \<or> \<not> isspace (hd (rev (strip s)))"
proof -
  have "rev (strip s) = dropWhile isspace (rev (dropWhile isspace s))"
    by (simp add: strip_def)
  then show ?thesis by (metis hd_dropWhile)
qed

lemma strip_idem [simp]: "strip (strip s) = strip s"
proof -
  have 1: "dropWhile isspace (strip s) = strip s"
    using strip_no_leading [of s] by (intro dropWhile_fixed) simp
  have 2: "dropWhile isspace (rev (strip s)) = rev (strip s)"
    using strip_no_trailing [of s] by (intro dropWhile_fixed) simp
  show ?thesis
    unfolding strip_def [of "strip s"] by (simp add: 1 2)
qed

lemma save_tasks_fields [simp]:
  "tasks (save_tasks m) = tasks m" "next_id (save_tasks m) = next_id m"
  by (simp_all add: save_tasks_def)

lemma add_task_returns:
  assumes "add_task now ti de pr du m = (Inr t, m')"
  shows "task_id t = next_id m \<and> tasks m' = tasks m @ [t] \<and> add_one (next_id m) = Inr (next_id m')
    \<and> storage_file m' = storage_file (save_tasks m')"
  using assms
  by (auto simp: add_task_def Task_init_def Let_def save_tasks_def
      split: sum.splits if_splits pyval.splits)

lemma add_task_good:
  assumes "strip ti \<noteq> []" "next_id m = PInt n"
  shows "\<exists>t. add_task now ti de pr du m
            = (Inr t, save_tasks (m\<lparr>tasks := tasks m @ [t], next_id := PInt (n + 1)\<rparr>))
          \<and> task_id t = PInt n \<and> title t = strip ti"
proof -
  from assms(1) have "ti \<noteq> []" by auto
  with assms show ?thesis
    by (simp add: add_task_def Task_init_def Let_def)
qed

lemma get_task_in_None: "get_task_in ts i = None \<longleftrightarrow> (\<forall>t\<in>set ts. \<not> eq_int (task_id t) i)"
  by (induction ts) auto

lemma run_Nil [simp]: "run [] m = m"
  by (simp add: run_def)

lemma run_Cons [simp]: "run (c # cs) m = run cs (exec c m)"
  by (simp add: run_def)

lemma run_good_adds:
  "\<forall>c\<in>set cs. good_add c \<Longrightarrow> next_id m = PInt n \<Longrightarrow>
     map task_id (tasks (run cs m)) = map task_id (tasks m) @ map PInt [n..n + int (length cs) - 1]
     \<and> next_id (run cs m) = PInt (n + int (length cs))"
proof (induction cs arbitrary: m n)
  case Nil
  then show ?case by simp
next
  case (Cons c cs)
  from Cons.prems(1) obtain now ti de pr du where c: "c = Add now ti de pr du" "strip ti \<noteq> []"
    by (cases c) auto
  from add_task_good [OF c(2) Cons.prems(2)] obtain t where
    t: "exec c m = save_tasks (m\<lparr>tasks := tasks m @ [t], next_id := PInt (n + 1)\<rparr>)"
       "task_id t = PInt n"
    unfolding c(1) by (metis exec.simps(1) snd_conv)
  have "\<forall>c\<in>set cs. good_add c" using Cons.prems(1) by simp
  moreover have "next_id (exec c m) = PInt (n + 1)" by (simp add: t(1))
  ultimately have IH: "map task_id (tasks (run cs (exec c m)))
       = map task_id (tasks (exec c m)) @ map PInt [n + 1..n + 1 + int (length cs) - 1]
     \<and> next_id (run cs (exec c m)) = PInt (n + 1 + int (length cs))"
    by (rule Cons.IH)
  have "[n..n + int (length (c # cs)) - 1] = n # [n + 1..n + 1 + int (length cs) - 1]"
    by (simp add: upto_rec1 [of n])
  with IH t show ?case by (simp add: add.commute add.left_commute)
qed

lemma below_trans: "below a (PInt n) \<Longrightarrow> n \<le> n' \<Longrightarrow> below a (PInt n')"
  by (cases a) auto

lemma list_all_assign_first:
  "(\<And>t. task_id (f t) = task_id t) \<Longrightarrow> list_all (\<lambda>t. P (task_id t)) ts
     \<Longrightarrow> list_all (\<lambda>t. P (task_id t)) (assign_first i f ts)"
  by (induction ts) auto

lemma get_task_in_mem: "get_task_in ts i = Some x \<Longrightarrow> x \<in> set ts \<and> eq_int (task_id x) i"
  by (induction ts) (auto split: if_splits)

lemma task_id_assign_fields [simp]: "task_id (assign_fields now ti de pr st du t) = task_id t"
  by (simp add: assign_fields_def Let_def split: option.splits)

lemma set_remove_first: "set (remove_first i ts) \<subseteq> set ts"
  by (induction ts) auto

lemma exec_ids_below:
  assumes "ids_below m" "next_id m = PInt n"
  shows "ids_below (exec c m) \<and> (\<exists>n'. next_id (exec c m) = PInt n' \<and> n \<le> n')"
proof (cases c)
  case (Add now ti de pr du)
  show ?thesis
  proof (cases "add_task now ti de pr du m")
    case (Pair r m')
    show ?thesis
    proof (cases r)
      case (Inl e)
      with Pair assms(2) have "m' = m"
        by (auto simp: add_task_def Let_def split: sum.splits)
      with Pair Add assms show ?thesis by simp
    next
      case (Inr t)
      from add_task_returns [OF Pair [unfolded Inr]] assms(2)
      have "task_id t = PInt n" "tasks m' = tasks m @ [t]" "next_id m' = PInt (n + 1)"
        by auto
      moreover have "\<forall>x\<in>set (tasks m). below (task_id x) (PInt (n + 1))"
        using assms by (auto simp: ids_below_def list_all_iff intro: below_trans)
      ultimately show ?thesis using Pair Add
        by (simp add: ids_below_def list_all_iff)
    qed
  qed
next
  case (Update now i ti de pr st du)
  have "list_all (\<lambda>t. below (task_id t) (PInt n))
      (assign_first i (assign_fields now ti de pr st du) (tasks m))"
    using assms by (intro list_all_assign_first) (simp_all add: ids_below_def)
  with assms Update show ?thesis
    by (auto simp: update_task_def ids_below_def split: option.splits)
next
  case (Delete i)
  with assms set_remove_first [of i "tasks m"] show ?thesis
    by (auto simp: delete_task_def ids_below_def list_all_iff split: option.splits)
qed

lemma run_ids_below:
  "ids_below m \<Longrightarrow> next_id m = PInt n \<Longrightarrow>
     ids_below (run cs m) \<and> (\<exists>n'. next_id (run cs m) = PInt n' \<and> n \<le> n')"
proof (induction cs arbitrary: m n)
  case Nil
  then show ?case by simp
next
  case (Cons c cs)
  from exec_ids_below [OF Cons.prems] obtain n1 where
    n1: "ids_below (exec c m)" "next_id (exec c m) = PInt n1" "n \<le> n1"
    by blast
  from Cons.IH [OF n1(1,2)] n1(3) show ?case by fastforce
qed

lemma eq_int_below: "eq_int a i \<Longrightarrow> below a (PInt n) \<Longrightarrow> i < n"
  by (cases a) auto

lemma delete_then_add_fresh:
  assumes inv: "ids_below m"
    and del: "delete_task i m = (True, m1)"
    and add: "add_task now ti de pr du (run cs m1) = (Inr t, m2)"
  shows "\<not> eq_int (task_id t) i"
proof -
  from inv obtain n where n: "next_id m = PInt n"
    by (auto simp: ids_below_def split: pyval.splits)
  from del obtain x where x: "x \<in> set (tasks m)" "eq_int (task_id x) i"
    by (cases "get_task m i")
      (auto simp: delete_task_def get_task_def dest: get_task_in_mem)
  from inv n x have "i < n"
    by (auto simp: ids_below_def list_all_iff dest: eq_int_below)
  from del have m1: "m1 = exec (Delete i) m" by simp
  from exec_ids_below [OF inv n, of "Delete i"] obtain n1 where
    n1: "ids_below m1" "next_id m1 = PInt n1" "n \<le> n1"
    unfolding m1 by blast
  from run_ids_below [OF n1(1,2), of cs] obtain n2 where
    n2: "next_id (run cs m1) = PInt n2" "n1 \<le> n2"
    by blast
  from add_task_returns [OF add] n2 have "task_id t = PInt n2" by simp
  with \<open>i < n\<close> n1(3) n2(2) show ?thesis by simp
qed

section \<open>Task construction and the overdue check\<close>

text \<open>
  Claim C6. For every title whose stripped value is not empty, \<^verbatim>\<open>Task(...)\<close> succeeds,
  the title of the result is the stripped input, the description is stripped likewise and
  \<^verbatim>\<open>created_at\<close> equals \<^verbatim>\<open>updated_at\<close>; for every empty or blank title the
  construction raises \<^verbatim>\<open>ValueError\<close> (the validation error of the specification),
  whatever the other arguments are.
\<close>

theorem Task_init_title:
  "(strip s \<noteq> [] \<longrightarrow>
      (\<exists>t. Task_init now (PStr s) (PStr d) pr st du tid = Inr t \<and> title t = strip s
          \<and> description t = strip d \<and> created_at t = updated_at t))
   \<and> (strip s = [] \<longrightarrow> Task_init now (PStr s) de pr st du tid = Inl ValueError)"
  by (auto simp: Task_init_def)

theorem Task_init_title_witness:
  "(\<exists>t. Task_init ''2025-01-01T12:00:00'' (PStr ''  Buy milk '') (PStr '' two litres  '')
            (PStr ''high'') (PStr ''todo'') PNone PNone = Inr t
        \<and> title t = ''Buy milk'' \<and> description t = ''two litres'' \<and> created_at t = updated_at t)
   \<and> Task_init ''2025-01-01T12:00:00'' (PStr '' '') (PStr []) (PStr ''high'') (PStr ''todo'')
        PNone PNone = Inl ValueError
   \<and> Task_init ''2025-01-01T12:00:00'' (PStr []) (PStr []) (PStr ''high'') (PStr ''todo'')
        PNone PNone = Inl ValueError"
proof -
  have a: "strip ''  Buy milk '' = ''Buy milk''" "strip '' two litres  '' = ''two litres''"
    "strip '' '' = []"
    by (simp_all add: strip_def isspace_def)
  show ?thesis
    using Task_init_title [of "''  Buy milk ''" "''2025-01-01T12:00:00''" "'' two litres  ''"
        "PStr ''high''" "PStr ''todo''" PNone PNone]
      Task_init_title [of "'' ''" "''2025-01-01T12:00:00''" _ "PStr ''high''" "PStr ''todo''"
        PNone PNone "PStr []"]
      Task_init_title [of "[]" "''2025-01-01T12:00:00''" _ "PStr ''high''" "PStr ''todo''"
        PNone PNone "PStr []"]
    by (simp add: a)
qed

text \<open>
  What \<^verbatim>\<open>is_overdue\<close> returns once the parser has produced a date: the verdict of
  \<^verbatim>\<open>due < datetime.now()\<close> joined with the status test. When the comparison raises
  \<^verbatim>\<open>TypeError\<close>, the \<^verbatim>\<open>except\<close> clause returns false.
\<close>

lemma is_overdue_parsed:
  assumes "due_date t = PStr s" "s \<noteq> []" "parse s = Inr due"
  shows "is_overdue parse now t
           = Inr (dt_less due (Naive now) = Inr True \<and> \<not> eq_str (status t) COMPLETED)"
  using assms by (cases due) (auto simp: is_overdue_def overdue_try_def)

text \<open>
  Where \<^verbatim>\<open>is_overdue\<close> returns what its documentation promises: false when the due
  date is absent (or any other falsy value), false when the due date is not text or the
  parser rejects it with \<^verbatim>\<open>ValueError\<close> or \<^verbatim>\<open>TypeError\<close>, and for a parsed due date
  without a time zone true exactly when that date lies strictly before the clock reading
  and the status is not \<^verbatim>\<open>completed\<close>; a past-due task with status \<^verbatim>\<open>cancelled\<close>
  is overdue.
\<close>

lemma is_overdue_cases:
  "(\<not> truthy (due_date t) \<longrightarrow> is_overdue parse now t = Inr False)
   \<and> (truthy (due_date t) \<and> (\<forall>s. due_date t \<noteq> PStr s) \<longrightarrow> is_overdue parse now t = Inr False)
   \<and> (due_date t = PStr s \<and> s \<noteq> [] \<and> parse s = Inl e \<and> (e = ValueError \<or> e = TypeError)
        \<longrightarrow> is_overdue parse now t = Inr False)
   \<and> (due_date t = PStr s \<and> s \<noteq> [] \<and> parse s = Inr (Naive d)
        \<longrightarrow> is_overdue parse now t = Inr (d < now \<and> \<not> eq_str (status t) COMPLETED))
   \<and> (due_date t = PStr s \<and> s \<noteq> [] \<and> parse s = Inr (Naive d) \<and> d < now
        \<and> status t = PStr CANCELLED
        \<longrightarrow> is_overdue parse now t = Inr True)"
proof (intro conjI impI)
  show "is_overdue parse now t = Inr False" if "\<not> truthy (due_date t)"
    using that by (simp add: is_overdue_def)
  show "is_overdue parse now t = Inr False"
    if "truthy (due_date t) \<and> (\<forall>s. due_date t \<noteq> PStr s)"
    using that by (cases "due_date t") (simp_all add: is_overdue_def overdue_try_def)
  show "is_overdue parse now t = Inr False"
    if "due_date t = PStr s \<and> s \<noteq> [] \<and> parse s = Inl e \<and> (e = ValueError \<or> e = TypeError)"
    using that by (auto simp: is_overdue_def overdue_try_def)
  show "is_overdue parse now t = Inr (d < now \<and> \<not> eq_str (status t) COMPLETED)"
    if "due_date t = PStr s \<and> s \<noteq> [] \<and> parse s = Inr (Naive d)"
    using that is_overdue_parsed [of t s parse "Naive d" now] by simp
  show "is_overdue parse now t = Inr True"
    if "due_date t = PStr s \<and> s \<noteq> [] \<and> parse s = Inr (Naive d) \<and> d < now
        \<and> status t = PStr CANCELLED"
    using that is_overdue_parsed [of t s parse "Naive d" now]
    by (simp add: COMPLETED_def CANCELLED_def)
qed

lemma is_overdue_examples:
  "is_overdue sample_parse 1893456000000000 (sample_task PNone ''todo'') = Inr False
   \<and> is_overdue sample_parse 1893456000000000 (sample_task (PInt 7) ''todo'') = Inr False
   \<and> is_overdue sample_parse 1893456000000000 (sample_task (PStr ''not-a-date'') ''todo'')
       = Inr False
   \<and> is_overdue sample_parse 1893456000000000 (sample_task (PStr ''2020-01-01'') ''todo'')
       = Inr True
   \<and> is_overdue sample_parse 1893456000000000 (sample_task (PStr ''2020-01-01'') ''completed'')
       = Inr False
   \<and> is_overdue sample_parse 1893456000000000 (sample_task (PStr ''2999-01-01'') ''todo'')
       = Inr False
   \<and> is_overdue sample_parse 1893456000000000 (sample_task (PStr ''2020-01-01'') ''cancelled'')
       = Inr True"
proof -
  note c = is_overdue_cases [where parse = sample_parse and now = 1893456000000000]
  show ?thesis
    using c [of "sample_task PNone ''todo''"]
      c [of "sample_task (PInt 7) ''todo''"]
      c [of "sample_task (PStr ''not-a-date'') ''todo''" "''not-a-date''" ValueError]
      c [of "sample_task (PStr ''2020-01-01'') ''todo''" "''2020-01-01''" _ 1577836800000000]
      c [of "sample_task (PStr ''2020-01-01'') ''completed''" "''2020-01-01''" _
          1577836800000000]
      c [of "sample_task (PStr ''2999-01-01'') ''todo''" "''2999-01-01''" _ 32472144000000000]
      c [of "sample_task (PStr ''2020-01-01'') ''cancelled''" "''2020-01-01''" _
          1577836800000000]
    by (simp add: sample_task_def sample_parse_def COMPLETED_def CANCELLED_def)
qed

text \<open>
  The two ways out of that: a parsed due date that carries a zone is never overdue,
  whatever the date and the clock, and an exception of the parser that is neither a
  \<^verbatim>\<open>ValueError\<close> nor a \<^verbatim>\<open>TypeError\<close> leaves \<^verbatim>\<open>is_overdue\<close> uncaught.
\<close>

lemma is_overdue_aware:
  assumes "due_date t = PStr s" "s \<noteq> []" "parse s = Inr (Aware d)"
  shows "is_overdue parse now t = Inr False"
  using assms is_overdue_parsed [of t s parse "Aware d" now] by simp

lemma is_overdue_uncaught:
  assumes "due_date t = PStr s" "s \<noteq> []" "parse s = Inl e"
    and "\<not> instance_of e ValueError" "\<not> instance_of e TypeError"
  shows "is_overdue parse now t = Inl e"
  using assms by (simp add: is_overdue_def overdue_try_def)

text \<open>
  Claim C1. The claim: \<^verbatim>\<open>is_overdue\<close> returns false when the due date is absent,
  false when it cannot be parsed, and otherwise true exactly when the parsed due date is
  strictly before the current time and the status is not \<^verbatim>\<open>completed\<close>. The code
  misses it on two inputs. The due date \<^verbatim>\<open>2020-01-01T00:00:00Z\<close> parses to an aware
  date ten years before the clock reading and the status is \<^verbatim>\<open>todo\<close>, yet the
  comparison with the naive \<^verbatim>\<open>datetime.now()\<close> raises \<^verbatim>\<open>TypeError\<close> inside the
  \<^verbatim>\<open>try\<close> block and \<^verbatim>\<open>is_overdue\<close> returns false. The due date
  \<^verbatim>\<open>99999999999\<close> cannot be parsed, the parser raises \<^verbatim>\<open>OverflowError\<close>, and
  \<^verbatim>\<open>is_overdue\<close> raises it too where the claim says it returns false.
\<close>

theorem is_overdue_zone_and_overflow:
  "sample_parse ''2020-01-01T00:00:00Z'' = Inr (Aware 1577836800000000)
   \<and> (1577836800000000 :: int) < 1893456000000000
   \<and> status (sample_task (PStr ''2020-01-01T00:00:00Z'') ''todo'') = PStr ''todo''
   \<and> is_overdue sample_parse 1893456000000000
        (sample_task (PStr ''2020-01-01T00:00:00Z'') ''todo'') = Inr False
   \<and> sample_parse ''99999999999'' = Inl OverflowError
   \<and> is_overdue sample_parse 1893456000000000
        (sample_task (PStr ''99999999999'') ''todo'') = Inl OverflowError"
  by (simp add: sample_parse_def sample_task_def is_overdue_def overdue_try_def)

section \<open>Loading, identifiers and listing\<close>

text \<open>
  Claim C9. Constructing the manager when the backing file does not exist gives no tasks
  and \<^verbatim>\<open>next_id = 1\<close>; constructing it over a file whose text is not well-formed JSON
  raises \<^verbatim>\<open>JSONDecodeError\<close> (the parse error of the specification) to the caller, and
  no manager with an empty list is returned in its place.
\<close>

theorem load_absent_or_malformed:
  "TaskManager_init clk None = Inr \<lparr>tasks = [], next_id = PInt 1, storage_file = None\<rparr>
   \<and> TaskManager_init clk (Some Malformed) = Inl JSONDecodeError"
  by (simp add: TaskManager_init_def load_tasks_def)

text \<open>
  Claim C2. The manager built without a backing file has no tasks and \<^verbatim>\<open>next_id = 1\<close>.
  From it, \<open>N\<close> calls of \<^verbatim>\<open>add_task\<close> with titles that are not blank leave the tasks
  carrying the identifiers \<open>1, \<dots>, N\<close> in list order and \<^verbatim>\<open>next_id = N + 1\<close>. In every
  manager whose counter is the integer \<open>n\<close>, a successful \<^verbatim>\<open>add_task\<close> returns a task
  with identifier \<open>n\<close>, appends it and sets the counter to \<open>n + 1\<close>. After any calls
  \<open>cs1\<close> on the fresh manager, a successful \<^verbatim>\<open>delete_task(i)\<close> and any further calls
  \<open>cs2\<close>, a task returned by \<^verbatim>\<open>add_task\<close> has an identifier different from \<open>i\<close>.
\<close>

theorem identifiers_sequential:
  assumes "TaskManager_init clk None = Inr m0"
  shows "tasks m0 = [] \<and> next_id m0 = PInt 1
    \<and> ((\<forall>c\<in>set cs. good_add c) \<longrightarrow>
         map task_id (tasks (run cs m0)) = map PInt [1..int (length cs)]
         \<and> next_id (run cs m0) = PInt (int (length cs) + 1))
    \<and> (next_id m = PInt n \<and> add_task now ti de pr du m = (Inr t, m') \<longrightarrow>
         task_id t = PInt n \<and> tasks m' = tasks m @ [t] \<and> next_id m' = PInt (n + 1))
    \<and> (delete_task i (run cs1 m0) = (True, m1)
         \<and> add_task now2 ti2 de2 pr2 du2 (run cs2 m1) = (Inr t2, m2) \<longrightarrow>
         \<not> eq_int (task_id t2) i)"
proof -
  from assms have m0: "m0 = \<lparr>tasks = [], next_id = PInt 1, storage_file = None\<rparr>"
    by (simp add: TaskManager_init_def load_tasks_def)
  have inv0: "ids_below m0" by (simp add: m0 ids_below_def)
  have a: "tasks m0 = [] \<and> next_id m0 = PInt 1" by (simp add: m0)
  have b: "map task_id (tasks (run cs m0)) = map PInt [1..int (length cs)]
         \<and> next_id (run cs m0) = PInt (int (length cs) + 1)" if "\<forall>c\<in>set cs. good_add c"
    using run_good_adds [OF that, of m0 1] a by (simp add: add.commute)
  have c: "task_id t = PInt n \<and> tasks m' = tasks m @ [t] \<and> next_id m' = PInt (n + 1)"
    if "next_id m = PInt n \<and> add_task now ti de pr du m = (Inr t, m')"
    using add_task_returns [of now ti de pr du m t m'] that by auto
  have d: "\<not> eq_int (task_id t2) i"
    if "delete_task i (run cs1 m0) = (True, m1)
         \<and> add_task now2 ti2 de2 pr2 du2 (run cs2 m1) = (Inr t2, m2)"
  proof -
    from run_ids_below [OF inv0, of 1 cs1] a have "ids_below (run cs1 m0)" by simp
    moreover from that have "delete_task i (run cs1 m0) = (True, m1)"
      and "add_task now2 ti2 de2 pr2 du2 (run cs2 m1) = (Inr t2, m2)"
      by simp_all
    ultimately show ?thesis by (rule delete_then_add_fresh)
  qed
  from a b c d show ?thesis by blast
qed

theorem identifiers_sequential_witness:
  "TaskManager_init (fixed_clock ''2025-01-01T08:00:00'') None
      = Inr \<lparr>tasks = [], next_id = PInt 1, storage_file = None\<rparr>
   \<and> list_all good_add sample_adds
   \<and> map task_id (tasks (run sample_adds \<lparr>tasks = [], next_id = PInt 1, storage_file = None\<rparr>))
      = [PInt 1, PInt 2, PInt 3]
   \<and> next_id (run sample_adds \<lparr>tasks = [], next_id = PInt 1, storage_file = None\<rparr>) = PInt 4
   \<and> fst (delete_task 2 (run sample_adds \<lparr>tasks = [], next_id = PInt 1, storage_file = None\<rparr>))
   \<and> \<not> eq_int (task_id (projr (fst (add_task ''2025-01-02T10:00:00'' ''Water plants'' [] ''low'' None
          (snd (delete_task 2
             (run sample_adds \<lparr>tasks = [], next_id = PInt 1, storage_file = None\<rparr>))))))) 2"
proof -
  define m0 where "m0 = \<lparr>tasks = [], next_id = PInt 1, storage_file = None\<rparr>"
  define m1 where "m1 = snd (delete_task 2 (run sample_adds m0))"
  define r where "r = add_task ''2025-01-02T10:00:00'' ''Water plants'' [] ''low'' None m1"
  have i: "TaskManager_init (fixed_clock ''2025-01-01T08:00:00'') None = Inr m0"
    by (simp add: m0_def TaskManager_init_def load_tasks_def)
  have s: "strip ''Buy milk'' = ''Buy milk''" "strip '' Call dentist '' = ''Call dentist''"
    "strip ''File taxes'' = ''File taxes''" "strip ''Water plants'' = ''Water plants''"
    "strip ''before noon'' = ''before noon''"
    by (simp_all add: strip_def isspace_def)
  have g: "\<forall>c\<in>set sample_adds. good_add c"
    by (simp add: sample_adds_def s)
  have d: "delete_task 2 (run sample_adds m0) = (True, m1)"
    by (simp add: m1_def m0_def sample_adds_def add_task_def Task_init_def s Let_def
        delete_task_def get_task_def)
  have a: "add_task ''2025-01-02T10:00:00'' ''Water plants'' [] ''low'' None (run [] m1)
      = (Inr (projr (fst r)), snd r)"
    by (simp add: r_def add_task_def Task_init_def s Let_def m1_def m0_def sample_adds_def
        delete_task_def get_task_def)
  have a1: "next_id m0 = PInt 1 \<and> add_task ''2025-01-01T09:00:00'' ''Buy milk'' [] ''high'' None m0
      = (Inr (projr (fst (add_task ''2025-01-01T09:00:00'' ''Buy milk'' [] ''high'' None m0))),
         snd (add_task ''2025-01-01T09:00:00'' ''Buy milk'' [] ''high'' None m0))"
    by (simp add: add_task_def Task_init_def s Let_def m0_def)
  from identifiers_sequential [OF i, of sample_adds m0 1 "''2025-01-01T09:00:00''" "''Buy milk''"
      "[]" "''high''" None _ _ 2 sample_adds m1 "''2025-01-02T10:00:00''" "''Water plants''" "[]"
      "''low''" None "[]" "projr (fst r)" "snd r"] g d a a1
  have "map task_id (tasks (run sample_adds m0)) = map PInt [1..int (length sample_adds)]
    \<and> next_id (run sample_adds m0) = PInt (int (length sample_adds) + 1)
    \<and> \<not> eq_int (task_id (projr (fst r))) 2"
    by blast
  moreover have "[1..int (length sample_adds)] = [1, 2, 3]"
    by (simp add: sample_adds_def upto_rec1)
  ultimately have "map task_id (tasks (run sample_adds m0)) = [PInt 1, PInt 2, PInt 3]
    \<and> next_id (run sample_adds m0) = PInt 4 \<and> \<not> eq_int (task_id (projr (fst r))) 2"
    by (simp add: sample_adds_def)
  moreover from d have "fst (delete_task 2 (run sample_adds m0))" by simp
  moreover from g have "list_all good_add sample_adds" by (simp add: list_all_iff)
  ultimately show ?thesis
    using i unfolding r_def m1_def m0_def by blast
qed

text \<open>
  Claim C4. When no task of the manager carries the identifier, \<^verbatim>\<open>update_task\<close> returns
  false and the manager is returned as it was: every task, \<^verbatim>\<open>next_id\<close> and the backing
  file, whatever the file held (a write would have replaced it by the saved document).
\<close>

theorem update_absent_id:
  assumes "\<forall>t\<in>set (tasks m). \<not> eq_int (task_id t) i"
  shows "update_task now i ti de pr st du m = (False, m)"
proof -
  from assms have "get_task m i = None"
    by (simp add: get_task_def get_task_in_None)
  then show ?thesis by (simp add: update_task_def)
qed

theorem update_absent_id_witness:
  "update_task ''2025-02-01T08:00:00'' 999 (Some ''Should fail'') None None (Some ''completed'')
      None \<lparr>tasks = [sample_task PNone ''todo''], next_id = PInt 2, storage_file = None\<rparr>
   = (False, \<lparr>tasks = [sample_task PNone ''todo''], next_id = PInt 2, storage_file = None\<rparr>)"
proof -
  have "\<forall>t\<in>set (tasks \<lparr>tasks = [sample_task PNone ''todo''], next_id = PInt 2,
      storage_file = None\<rparr>). \<not> eq_int (task_id t) 999"
    by (simp add: sample_task_def)
  then show ?thesis by (rule update_absent_id)
qed

text \<open>
  Claim C10. An empty string as status filter or as priority filter of \<^verbatim>\<open>list_tasks\<close>
  acts as if that filter had been omitted: with the other filter omitted or empty too, the
  whole list is returned in its order. Whenever a status (priority) filter does select,
  its value is not empty, and then no task whose status (priority) is the empty string is
  in the result.
\<close>

theorem list_tasks_empty_filter:
  "list_tasks (Some []) pr m = list_tasks None pr m
   \<and> list_tasks st (Some []) m = list_tasks st None m
   \<and> list_tasks (Some []) None m = tasks m
   \<and> list_tasks None (Some []) m = tasks m
   \<and> list_tasks (Some []) (Some []) m = tasks m
   \<and> list_tasks None None m = tasks m
   \<and> (s \<noteq> [] \<longrightarrow> (\<forall>t\<in>set (list_tasks (Some s) pr m). status t \<noteq> PStr []))
   \<and> (p \<noteq> [] \<longrightarrow> (\<forall>t\<in>set (list_tasks st (Some p) m). priority t \<noteq> PStr []))"
  by (auto simp: list_tasks_def Let_def split: option.splits)

theorem list_tasks_empty_filter_witness:
  "list_tasks (Some []) None
      \<lparr>tasks = [sample_task PNone ''todo'', sample_task PNone []], next_id = PInt 3,
       storage_file = None\<rparr>
     = [sample_task PNone ''todo'', sample_task PNone []]
   \<and> list_all (\<lambda>t. status t \<noteq> PStr []) (list_tasks (Some ''todo'') None
        \<lparr>tasks = [sample_task PNone ''todo'', sample_task PNone []], next_id = PInt 3,
         storage_file = None\<rparr>)
   \<and> list_all (\<lambda>t. priority t \<noteq> PStr []) (list_tasks None (Some ''high'')
        \<lparr>tasks = [sample_task PNone ''todo'', sample_task PNone []], next_id = PInt 3,
         storage_file = None\<rparr>)"
  using list_tasks_empty_filter [of None
      "\<lparr>tasks = [sample_task PNone ''todo'', sample_task PNone []], next_id = PInt 3,
        storage_file = None\<rparr>" None "''todo''" "''high''"]
  by (simp add: list_all_iff)

section \<open>Updating a task\<close>

lemma get_task_in_first:
  "get_task_in ts i \<noteq> None \<Longrightarrow>
     \<exists>k<length ts. eq_int (task_id (ts ! k)) i \<and> (\<forall>j<k. \<not> eq_int (task_id (ts ! j)) i)
        \<and> get_task_in ts i = Some (ts ! k) \<and> assign_first i f ts = ts[k := f (ts ! k)]"
proof (induction ts)
  case Nil
  then show ?case by simp
next
  case (Cons t ts)
  show ?case
  proof (cases "eq_int (task_id t) i")
    case True
    then have "0 < length (t # ts) \<and> eq_int (task_id ((t # ts) ! 0)) i
        \<and> (\<forall>j<0. \<not> eq_int (task_id ((t # ts) ! j)) i)
        \<and> get_task_in (t # ts) i = Some ((t # ts) ! 0)
        \<and> assign_first i f (t # ts) = (t # ts)[0 := f ((t # ts) ! 0)]"
      by simp
    then show ?thesis by blast
  next
    case False
    with Cons.prems have "get_task_in ts i \<noteq> None" by simp
    from Cons.IH [OF this] obtain k where k: "k < length ts" "eq_int (task_id (ts ! k)) i"
      "\<forall>j<k. \<not> eq_int (task_id (ts ! j)) i" "get_task_in ts i = Some (ts ! k)"
      "assign_first i f ts = ts[k := f (ts ! k)]"
      by blast
    have "\<forall>j<Suc k. \<not> eq_int (task_id ((t # ts) ! j)) i"
      using False k(3) by (auto simp: less_Suc_eq_0_disj)
    with False k have "Suc k < length (t # ts) \<and> eq_int (task_id ((t # ts) ! Suc k)) i
        \<and> (\<forall>j<Suc k. \<not> eq_int (task_id ((t # ts) ! j)) i)
        \<and> get_task_in (t # ts) i = Some ((t # ts) ! Suc k)
        \<and> assign_first i f (t # ts) = (t # ts)[Suc k := f ((t # ts) ! Suc k)]"
      by simp
    then show ?thesis by blast
  qed
qed

lemma get_task_in_assign_first:
  "(\<And>t. task_id (f t) = task_id t) \<Longrightarrow>
     get_task_in (assign_first i f ts) i = map_option f (get_task_in ts i)"
  by (induction ts) auto

lemma assign_fields_sel:
  "title (assign_fields now ti de pr st du t) = (case ti of None \<Rightarrow> title t | Some s \<Rightarrow> strip s)"
  "description (assign_fields now ti de pr st du t)
     = (case de of None \<Rightarrow> description t | Some s \<Rightarrow> strip s)"
  "priority (assign_fields now ti de pr st du t)
     = (case pr of None \<Rightarrow> priority t | Some s \<Rightarrow> PStr s)"
  "status (assign_fields now ti de pr st du t) = (case st of None \<Rightarrow> status t | Some s \<Rightarrow> PStr s)"
  "due_date (assign_fields now ti de pr st du t)
     = (case du of None \<Rightarrow> due_date t | Some s \<Rightarrow> PStr s)"
  "created_at (assign_fields now ti de pr st du t) = created_at t"
  "updated_at (assign_fields now ti de pr st du t) = PStr now"
  by (simp_all add: assign_fields_def Let_def split: option.splits)

text \<open>
  Claim C5. When some task of the manager carries the identifier, \<^verbatim>\<open>update_task\<close>
  returns true. The task changed is the first one carrying the identifier, at position
  \<open>k\<close>: each argument that is given overwrites its attribute (title and description
  stripped), \<^verbatim>\<open>updated_at\<close> becomes the clock reading, the attributes whose argument
  is omitted, the identifier and \<^verbatim>\<open>created_at\<close> keep their values. The list differs
  from the old one at position \<open>k\<close> only, \<^verbatim>\<open>next_id\<close> is unchanged, and the manager
  returned is the one saved to the backing file.
\<close>

theorem update_existing_id:
  assumes "t \<in> set (tasks m)" "eq_int (task_id t) i"
  shows "\<exists>k u m'. update_task now i ti de pr st du m = (True, m')
     \<and> k < length (tasks m) \<and> eq_int (task_id (tasks m ! k)) i
     \<and> (\<forall>j<k. \<not> eq_int (task_id (tasks m ! j)) i)
     \<and> tasks m' = (tasks m)[k := u] \<and> next_id m' = next_id m
     \<and> m' = save_tasks (m\<lparr>tasks := (tasks m)[k := u]\<rparr>)
     \<and> title u = (case ti of None \<Rightarrow> title (tasks m ! k) | Some s \<Rightarrow> strip s)
     \<and> description u = (case de of None \<Rightarrow> description (tasks m ! k) | Some s \<Rightarrow> strip s)
     \<and> priority u = (case pr of None \<Rightarrow> priority (tasks m ! k) | Some s \<Rightarrow> PStr s)
     \<and> status u = (case st of None \<Rightarrow> status (tasks m ! k) | Some s \<Rightarrow> PStr s)
     \<and> due_date u = (case du of None \<Rightarrow> due_date (tasks m ! k) | Some s \<Rightarrow> PStr s)
     \<and> task_id u = task_id (tasks m ! k)
     \<and> created_at u = created_at (tasks m ! k)
     \<and> updated_at u = PStr now"
proof -
  let ?f = "assign_fields now ti de pr st du"
  from assms have found: "get_task_in (tasks m) i \<noteq> None"
    by (auto simp: get_task_in_None)
  from get_task_in_first [OF this, of ?f] obtain k where
    k: "k < length (tasks m)" "eq_int (task_id (tasks m ! k)) i"
      "\<forall>j<k. \<not> eq_int (task_id (tasks m ! j)) i"
      "assign_first i ?f (tasks m) = (tasks m)[k := ?f (tasks m ! k)]"
    by blast
  let ?u = "?f (tasks m ! k)"
  let ?m' = "save_tasks (m\<lparr>tasks := (tasks m)[k := ?u]\<rparr>)"
  from found k(4) have "update_task now i ti de pr st du m = (True, ?m')"
    by (auto simp: update_task_def get_task_def)
  with k(1-3) show ?thesis
    by (intro exI [of _ k] exI [of _ ?u] exI [of _ ?m']) (simp add: assign_fields_sel)
qed

theorem update_existing_id_witness:
  "update_task ''2025-02-01T08:00:00'' 1 (Some '' Pay the rent '') None None (Some ''completed'')
      None
      \<lparr>tasks = [sample_task PNone ''todo'', (sample_task PNone ''todo'')\<lparr>task_id := PInt 2\<rparr>],
       next_id = PInt 3, storage_file = None\<rparr>
   = (True, save_tasks
      \<lparr>tasks = [\<lparr>title = ''Pay the rent'', description = [], priority = PStr ''high'',
                 status = PStr ''completed'', due_date = PNone, task_id = PInt 1,
                 created_at = PStr ''2019-12-01T09:00:00'',
                 updated_at = PStr ''2025-02-01T08:00:00''\<rparr>,
                (sample_task PNone ''todo'')\<lparr>task_id := PInt 2\<rparr>],
       next_id = PInt 3, storage_file = None\<rparr>)"
proof -
  have s: "strip '' Pay the rent '' = ''Pay the rent''"
    by (simp add: strip_def isspace_def)
  have "sample_task PNone ''todo'' \<in> set (tasks
      \<lparr>tasks = [sample_task PNone ''todo'', (sample_task PNone ''todo'')\<lparr>task_id := PInt 2\<rparr>],
       next_id = PInt 3, storage_file = None\<rparr>)"
    and "eq_int (task_id (sample_task PNone ''todo'')) 1"
    by (simp_all add: sample_task_def)
  from update_existing_id [OF this, of "''2025-02-01T08:00:00''" "Some '' Pay the rent ''" None None
      "Some ''completed''" None]
  show ?thesis
    by (simp add: update_task_def get_task_def sample_task_def assign_fields_def s save_tasks_def)
qed

text \<open>
  Claim C7. \<^verbatim>\<open>update_task\<close> does not check the new title: when some task carries the
  identifier and the title given is blank, the call returns true and the task then found
  under the identifier has the empty title, a title that the constructor rejects with
  \<^verbatim>\<open>ValueError\<close>.
\<close>

theorem update_blank_title:
  assumes "t \<in> set (tasks m)" "eq_int (task_id t) i" "strip s = []"
  shows "\<exists>m' u. update_task now i (Some s) de pr st du m = (True, m')
     \<and> get_task m' i = Some u \<and> title u = []
     \<and> Task_init now2 (PStr (title u)) de2 pr2 st2 du2 tid2 = Inl ValueError"
proof -
  let ?f = "assign_fields now (Some s) de pr st du"
  let ?m' = "save_tasks (m\<lparr>tasks := assign_first i ?f (tasks m)\<rparr>)"
  from assms obtain x where x: "get_task_in (tasks m) i = Some x"
    by (cases "get_task_in (tasks m) i") (auto simp: get_task_in_None)
  then have "update_task now i (Some s) de pr st du m = (True, ?m')"
    by (simp add: update_task_def get_task_def)
  moreover have "get_task ?m' i = Some (?f x)"
    using x by (simp add: get_task_def get_task_in_assign_first)
  moreover have "title (?f x) = []"
    using assms(3) by (simp add: assign_fields_sel)
  ultimately show ?thesis
    by (intro exI [of _ ?m'] exI [of _ "?f x"]) (simp add: Task_init_def)
qed

theorem update_blank_title_witness:
  "fst (update_task ''2025-02-01T08:00:00'' 1 (Some ''   '') None None None None
      \<lparr>tasks = [sample_task PNone ''todo''], next_id = PInt 2, storage_file = None\<rparr>)
   \<and> map_option title (get_task (snd (update_task ''2025-02-01T08:00:00'' 1 (Some ''   '') None None
        None None
        \<lparr>tasks = [sample_task PNone ''todo''], next_id = PInt 2, storage_file = None\<rparr>)) 1)
      = Some []"
proof -
  have s: "strip ''   '' = []"
    by (simp add: strip_def isspace_def)
  have "sample_task PNone ''todo'' \<in> set (tasks
      \<lparr>tasks = [sample_task PNone ''todo''], next_id = PInt 2, storage_file = None\<rparr>)"
    and "eq_int (task_id (sample_task PNone ''todo'')) 1"
    by (simp_all add: sample_task_def)
  from update_blank_title [OF this s, of "''2025-02-01T08:00:00''" None None None None
      "''2025-02-01T08:00:00''" "PStr []" "PStr ''high''" "PStr ''todo''" PNone PNone]
  show ?thesis by auto
qed

section \<open>Serialisation and persistence\<close>

lemma Task_init_fields:
  assumes "Task_init now ti de pr st du tid = Inr t"
  shows "priority t = pr \<and> status t = st \<and> due_date t = du \<and> task_id t = tid
     \<and> created_at t = PStr now \<and> updated_at t = PStr now
     \<and> (\<exists>s. ti = PStr s \<and> strip s \<noteq> [] \<and> title t = strip s)
     \<and> (\<exists>x. de = PStr x \<and> description t = strip x)"
proof -
  from assms obtain s where s: "ti = PStr s" "strip s \<noteq> []"
    by (cases ti) (auto simp: Task_init_def split: if_splits)
  then have "s \<noteq> []" by auto
  with assms s obtain x where x: "de = PStr x"
    by (cases de) (auto simp: Task_init_def)
  from assms s x \<open>s \<noteq> []\<close> show ?thesis
    by (auto simp: Task_init_def)
qed

lemma from_dict_fields:
  assumes "from_dict now (PDict d) = Inr t"
  shows "priority t = (case map_of d ''priority'' of None \<Rightarrow> PStr ''medium'' | Some v \<Rightarrow> v)
     \<and> status t = (case map_of d ''status'' of None \<Rightarrow> PStr ''todo'' | Some v \<Rightarrow> v)
     \<and> due_date t = (case map_of d ''due_date'' of None \<Rightarrow> PNone | Some v \<Rightarrow> v)
     \<and> task_id t = (case map_of d ''task_id'' of None \<Rightarrow> PNone | Some v \<Rightarrow> v)
     \<and> created_at t = (case map_of d ''created_at'' of None \<Rightarrow> PStr now | Some v \<Rightarrow> v)
     \<and> updated_at t = (case map_of d ''updated_at'' of None \<Rightarrow> PStr now | Some v \<Rightarrow> v)
     \<and> (map_of d ''description'' = None \<longrightarrow> description t = [])"
proof -
  from assms obtain ti where ti: "map_of d ''title'' = Some ti"
    by (cases "map_of d ''title''") simp_all
  with assms obtain t0 where
    t0: "Task_init now ti (dict_get d ''description'' (PStr [])) (dict_get d ''priority'' (PStr MEDIUM))
          (dict_get d ''status'' (PStr TODO)) (dict_get d ''due_date'' PNone)
          (dict_get d ''task_id'' PNone) = Inr t0"
    and t: "t = t0\<lparr>created_at := dict_get d ''created_at'' (created_at t0),
                  updated_at := dict_get d ''updated_at'' (updated_at t0)\<rparr>"
    by (auto split: sum.splits)
  note f = Task_init_fields [OF t0]
  from f have "map_of d ''description'' = None \<longrightarrow> description t0 = []"
    by (auto simp: dict_get_def)
  with f t show ?thesis
    by (simp add: dict_get_def MEDIUM_def TODO_def)
qed

text \<open>
  Claim C8, as amended. \<^verbatim>\<open>to_dict\<close> yields a dictionary whose keys are exactly
  \<^verbatim>\<open>task_id\<close>, \<^verbatim>\<open>title\<close>, \<^verbatim>\<open>description\<close>, \<^verbatim>\<open>priority\<close>, \<^verbatim>\<open>status\<close>,
  \<^verbatim>\<open>due_date\<close>, \<^verbatim>\<open>created_at\<close> and \<^verbatim>\<open>updated_at\<close>: the identifier is stored under
  \<^verbatim>\<open>task_id\<close>, not under \<^verbatim>\<open>id\<close>. Whenever \<^verbatim>\<open>from_dict\<close> returns a task, every
  optional key that is missing has the constructor's default (empty description, priority
  \<^verbatim>\<open>medium\<close>, status \<^verbatim>\<open>todo\<close>, no due date, no identifier), every key that is present
  has the value of the dictionary, and \<^verbatim>\<open>created_at\<close> and \<^verbatim>\<open>updated_at\<close> are the
  values of the dictionary when present, the clock reading otherwise. It does return a task
  when the title is text that is not blank and the description is missing or text.
\<close>

theorem to_dict_from_dict_keys:
  "keys (to_dict t)
     = [''task_id'', ''title'', ''description'', ''priority'', ''status'', ''due_date'',
        ''created_at'', ''updated_at'']
   \<and> (from_dict now (PDict d) = Inr u \<longrightarrow>
         priority u = (case map_of d ''priority'' of None \<Rightarrow> PStr ''medium'' | Some v \<Rightarrow> v)
       \<and> status u = (case map_of d ''status'' of None \<Rightarrow> PStr ''todo'' | Some v \<Rightarrow> v)
       \<and> due_date u = (case map_of d ''due_date'' of None \<Rightarrow> PNone | Some v \<Rightarrow> v)
       \<and> task_id u = (case map_of d ''task_id'' of None \<Rightarrow> PNone | Some v \<Rightarrow> v)
       \<and> created_at u = (case map_of d ''created_at'' of None \<Rightarrow> PStr now | Some v \<Rightarrow> v)
       \<and> updated_at u = (case map_of d ''updated_at'' of None \<Rightarrow> PStr now | Some v \<Rightarrow> v)
       \<and> (map_of d ''description'' = None \<longrightarrow> description u = []))
   \<and> (map_of d ''title'' = Some (PStr s) \<and> strip s \<noteq> []
        \<and> (map_of d ''description'' = None \<and> x = [] \<or> map_of d ''description'' = Some (PStr x))
      \<longrightarrow> (\<exists>u. from_dict now (PDict d) = Inr u \<and> title u = strip s \<and> description u = strip x))"
proof -
  have a: "keys (to_dict t)
     = [''task_id'', ''title'', ''description'', ''priority'', ''status'', ''due_date'',
        ''created_at'', ''updated_at'']"
    by (simp add: to_dict_def)
  have b: "from_dict now (PDict d) = Inr u \<longrightarrow>
         priority u = (case map_of d ''priority'' of None \<Rightarrow> PStr ''medium'' | Some v \<Rightarrow> v)
       \<and> status u = (case map_of d ''status'' of None \<Rightarrow> PStr ''todo'' | Some v \<Rightarrow> v)
       \<and> due_date u = (case map_of d ''due_date'' of None \<Rightarrow> PNone | Some v \<Rightarrow> v)
       \<and> task_id u = (case map_of d ''task_id'' of None \<Rightarrow> PNone | Some v \<Rightarrow> v)
       \<and> created_at u = (case map_of d ''created_at'' of None \<Rightarrow> PStr now | Some v \<Rightarrow> v)
       \<and> updated_at u = (case map_of d ''updated_at'' of None \<Rightarrow> PStr now | Some v \<Rightarrow> v)
       \<and> (map_of d ''description'' = None \<longrightarrow> description u = [])"
    by (rule impI) (rule from_dict_fields)
  have c: "map_of d ''title'' = Some (PStr s) \<and> strip s \<noteq> []
        \<and> (map_of d ''description'' = None \<and> x = [] \<or> map_of d ''description'' = Some (PStr x))
      \<longrightarrow> (\<exists>u. from_dict now (PDict d) = Inr u \<and> title u = strip s \<and> description u = strip x)"
  proof
    assume h: "map_of d ''title'' = Some (PStr s) \<and> strip s \<noteq> []
        \<and> (map_of d ''description'' = None \<and> x = [] \<or> map_of d ''description'' = Some (PStr x))"
    then have "s \<noteq> []" by auto
    with h show "\<exists>u. from_dict now (PDict d) = Inr u \<and> title u = strip s
        \<and> description u = strip x"
      by (auto simp: dict_get_def Task_init_def)
  qed
  show ?thesis by (rule conjI [OF a conjI [OF b c]])
qed

theorem to_dict_from_dict_keys_witness:
  "keys (to_dict (sample_task PNone ''todo''))
     = [''task_id'', ''title'', ''description'', ''priority'', ''status'', ''due_date'',
        ''created_at'', ''updated_at'']
   \<and> from_dict ''2025-03-01T10:00:00''
        (PDict [(''title'', PStr '' Call dentist ''), (''task_id'', PInt 5),
                (''created_at'', PStr ''2025-01-01T12:00:00'')])
      = Inr \<lparr>title = ''Call dentist'', description = [], priority = PStr ''medium'',
             status = PStr ''todo'', due_date = PNone, task_id = PInt 5,
             created_at = PStr ''2025-01-01T12:00:00'',
             updated_at = PStr ''2025-03-01T10:00:00''\<rparr>"
proof -
  let ?d = "[(''title'', PStr '' Call dentist ''), (''task_id'', PInt 5),
             (''created_at'', PStr ''2025-01-01T12:00:00'')]"
  let ?u = "\<lparr>title = ''Call dentist'', description = [], priority = PStr ''medium'',
             status = PStr ''todo'', due_date = PNone, task_id = PInt 5,
             created_at = PStr ''2025-01-01T12:00:00'',
             updated_at = PStr ''2025-03-01T10:00:00''\<rparr>"
  have s: "strip '' Call dentist '' = ''Call dentist''"
    by (simp add: strip_def isspace_def)
  have r: "from_dict ''2025-03-01T10:00:00'' (PDict ?d) = Inr ?u"
    by (simp add: dict_get_def Task_init_def s MEDIUM_def TODO_def)
  from to_dict_from_dict_keys [where t = "sample_task PNone ''todo''" and d = ?d
      and now = "''2025-03-01T10:00:00''" and u = ?u and s = "'' Call dentist ''" and x = "[]"] r
  show ?thesis by simp
qed

text \<open>
  The key set stated in claim C8 names \<^verbatim>\<open>id\<close>; the dictionary of a task has no such
  key.
\<close>

theorem to_dict_from_dict_keys_counterexample:
  "set (keys (to_dict (sample_task PNone ''todo'')))
     \<noteq> {''id'', ''title'', ''description'', ''priority'', ''status'', ''due_date'',
         ''created_at'', ''updated_at''}"
proof -
  have "''task_id'' \<in> set (keys (to_dict (sample_task PNone ''todo'')))"
    by (simp add: to_dict_def)
  moreover have "''task_id'' \<notin> {''id'', ''title'', ''description'', ''priority'', ''status'',
      ''due_date'', ''created_at'', ''updated_at''}"
    by simp
  ultimately show ?thesis by metis
qed

text \<open>Reading back what \<^verbatim>\<open>to_dict\<close> wrote.\<close>

lemma from_dict_to_dict:
  assumes "title t \<noteq> []" "strip (title t) = title t" "strip (description t) = description t"
  shows "from_dict now (to_dict t) = Inr t"
  using assms by (simp add: to_dict_def dict_get_def Task_init_def)

lemma from_dicts_to_dict:
  "\<forall>t\<in>set ts. title t \<noteq> [] \<and> strip (title t) = title t \<and> strip (description t) = description t
     \<Longrightarrow> from_dicts clk k (map to_dict ts) = Inr ts"
  by (induction ts arbitrary: k) (simp_all add: from_dict_to_dict)

text \<open>
  Every operation stores stripped titles and descriptions, and so does loading; the
  managers that the operations can reach hold tasks in stripped form only.
\<close>

lemma trimmed_assign_fields: "trimmed t \<Longrightarrow> trimmed (assign_fields now ti de pr st du t)"
  by (simp add: assign_fields_def trimmed_def Let_def split: option.splits)

lemma list_all_assign_first_gen:
  "(\<And>t. P t \<Longrightarrow> P (f t)) \<Longrightarrow> list_all P ts \<Longrightarrow> list_all P (assign_first i f ts)"
  by (induction ts) auto

lemma list_all_remove_first: "list_all P ts \<Longrightarrow> list_all P (remove_first i ts)"
  by (induction ts) auto

lemma exec_trimmed:
  assumes "list_all trimmed (tasks m)"
  shows "list_all trimmed (tasks (exec c m))"
proof (cases c)
  case (Add now ti de pr du)
  with assms show ?thesis
    by (auto simp: add_task_def Task_init_def Let_def trimmed_def split: sum.splits if_splits)
next
  case (Update now i ti de pr st du)
  with assms show ?thesis
    by (auto simp: update_task_def split: option.splits
        intro!: list_all_assign_first_gen trimmed_assign_fields)
next
  case (Delete i)
  with assms show ?thesis
    by (auto simp: delete_task_def split: option.splits intro: list_all_remove_first)
qed

lemma from_dict_trimmed: "from_dict now v = Inr t \<Longrightarrow> trimmed t \<and> title t \<noteq> []"
  by (cases v)
    (auto simp: Task_init_def trimmed_def
      split: sum.splits option.splits if_splits pyval.splits)

lemma from_dicts_trimmed: "from_dicts clk k xs = Inr ts \<Longrightarrow> list_all trimmed ts"
  by (induction xs arbitrary: k ts) (auto split: sum.splits dest: from_dict_trimmed)

lemma load_trimmed: "TaskManager_init clk f = Inr m \<Longrightarrow> list_all trimmed (tasks m)"
  by (auto simp: TaskManager_init_def load_tasks_def
      split: option.splits file_content.splits sum.splits pyval.splits
      dest: from_dicts_trimmed)

text \<open>
  Saving and loading on well-formed stores. For every manager whose tasks have titles
  that are not empty, with titles and descriptions in stripped form, saving and then
  constructing a manager from the saved file gives the same tasks in the same order, all
  attributes and both timestamps included, and the same \<^verbatim>\<open>next_id\<close>.
\<close>

lemma save_load_roundtrip:
  assumes "\<forall>t\<in>set (tasks m). title t \<noteq> [] \<and> strip (title t) = title t
              \<and> strip (description t) = description t"
  shows "\<exists>m'. TaskManager_init clk (storage_file (save_tasks m)) = Inr m'
           \<and> tasks m' = tasks m \<and> next_id m' = next_id m
           \<and> storage_file m' = storage_file (save_tasks m)"
  using from_dicts_to_dict [OF assms, of clk 0]
  by (simp add: TaskManager_init_def load_tasks_def save_tasks_def dict_get_def)

lemma save_load_roundtrip_example:
  "TaskManager_init (fixed_clock ''2025-01-02T08:00:00'')
     (storage_file (save_tasks
        \<lparr>tasks = [sample_task (PStr ''2020-01-01'') ''todo'',
                  (sample_task PNone ''completed'')\<lparr>task_id := PInt 2\<rparr>],
         next_id = PInt 3, storage_file = None\<rparr>))
   = Inr (save_tasks
        \<lparr>tasks = [sample_task (PStr ''2020-01-01'') ''todo'',
                  (sample_task PNone ''completed'')\<lparr>task_id := PInt 2\<rparr>],
         next_id = PInt 3, storage_file = None\<rparr>)"
proof -
  let ?m = "\<lparr>tasks = [sample_task (PStr ''2020-01-01'') ''todo'',
                  (sample_task PNone ''completed'')\<lparr>task_id := PInt 2\<rparr>],
         next_id = PInt 3, storage_file = None\<rparr>"
  have s: "strip ''Pay rent'' = ''Pay rent''"
    by (simp add: strip_def isspace_def)
  have "\<forall>t\<in>set (tasks ?m). title t \<noteq> [] \<and> strip (title t) = title t
              \<and> strip (description t) = description t"
    by (simp add: sample_task_def s)
  from save_load_roundtrip [OF this, of "fixed_clock ''2025-01-02T08:00:00''"]
  show ?thesis by (auto simp: save_tasks_def)
qed

text \<open>
  Claim C3. The claim: for every store, saving and then loading from the saved file gives
  the same tasks in the same order and the same \<^verbatim>\<open>next_id\<close>. The code misses it on a
  store that its own operations reach: after \<^verbatim>\<open>add_task("Buy milk")\<close> and
  \<^verbatim>\<open>update_task(1, title=" ")\<close> the task has the empty title, which \<^verbatim>\<open>update_task\<close>
  stores without the check of \<^verbatim>\<open>Task.__init__\<close>; the file saved by that update, and by
  any later save, makes the construction of a manager raise \<^verbatim>\<open>ValueError\<close>.
\<close>

theorem save_load_blank_title_fails:
  "fst (update_task ''2025-01-01T09:30:00'' 1 (Some '' '') None None None None
     (run [Add ''2025-01-01T09:00:00'' ''Buy milk'' [] ''high'' None]
        \<lparr>tasks = [], next_id = PInt 1, storage_file = None\<rparr>))
   \<and> TaskManager_init (fixed_clock ''2025-01-02T08:00:00'')
     (storage_file
        (run [Add ''2025-01-01T09:00:00'' ''Buy milk'' [] ''high'' None,
              Update ''2025-01-01T09:30:00'' 1 (Some '' '') None None None None]
           \<lparr>tasks = [], next_id = PInt 1, storage_file = None\<rparr>))
     = Inl ValueError
   \<and> TaskManager_init (fixed_clock ''2025-01-02T08:00:00'')
     (storage_file (save_tasks
        (run [Add ''2025-01-01T09:00:00'' ''Buy milk'' [] ''high'' None,
              Update ''2025-01-01T09:30:00'' 1 (Some '' '') None None None None]
           \<lparr>tasks = [], next_id = PInt 1, storage_file = None\<rparr>)))
     = Inl ValueError"
proof -
  have s: "strip ''Buy milk'' = ''Buy milk''" "strip '' '' = []"
    by (simp_all add: strip_def isspace_def)
  show ?thesis
    by (simp add: add_task_def Task_init_def s Let_def update_task_def get_task_def
        assign_fields_def save_tasks_def to_dict_def TaskManager_init_def load_tasks_def
        dict_get_def fixed_clock_def)
qed

end
